theory Spec2Isabelle
  imports Complex_Main "HOL-Library.Log_Nat"
begin

section \<open>Storefront screens: the product listing and the product card\<close>

text \<open>
  The development follows \<^verbatim>\<open>src/components/ProductCard.tsx\<close> and
  \<^verbatim>\<open>src/components/Home.tsx\<close>. A JavaScript \<^verbatim>\<open>number\<close> is a binary64
  floating-point value: a finite one is given by the rational it denotes, and every
  arithmetic operation rounds its exact result to the nearest such value, a tie going to
  the even significand, with overflow to an infinity. The sign of a zero is not kept. A
  string is a list of 8-bit characters, so a code unit is below 256.
\<close>

subsection \<open>Data model\<close>

text \<open>
  Modelled from the spec: the type \<^verbatim>\<open>Category\<close> of \<^verbatim>\<open>../types\<close> (identifier and
  unique display name), which the components import and which is not among the sources.
\<close>

record category =
  category_id :: string
  category_name :: string

text \<open>
  Modelled from the spec: the object joined to a product by the query
  \<^verbatim>\<open>select('*, categories(name))\<close>; the code reads it as
  \<^verbatim>\<open>product.categories?.name\<close>.
\<close>

record category_join =
  name :: string

text \<open>
  Modelled from the spec: the type \<^verbatim>\<open>ProductWithCategory\<close> of \<^verbatim>\<open>../types\<close>, which is
  not among the sources, with the fields the two components read. The field
  \<^verbatim>\<open>id\<close> is \<open>id'\<close> here and \<^verbatim>\<open>name\<close> is \<open>product_name\<close> The prices
  arrive as JSON numbers, which are finite; a price that is a binary64 value satisfies
  \<open>is_double\<close> below.
\<close>

record product =
  id' :: string
  product_name :: string
  price :: rat
  original_price :: "rat option"
  image_url :: "string option"
  categories :: "category_join option"

subsection \<open>Binary64 numbers\<close>

datatype number = Num rat | PosInf | NegInf | NaN

text \<open>The binary exponent of a positive rational: \<open>2 powi ilog2 x \<le> x < 2 powi (ilog2 x + 1)\<close>.\<close>

definition ilog2 :: "rat \<Rightarrow> int" where
  "ilog2 x =
     (let (a, b) = quotient_of x;
          d = bitlen a - bitlen b
      in if 2 powi d \<le> x then d else d - 1)"

definition round_half_even :: "rat \<Rightarrow> int" where
  "round_half_even y =
     (let f = \<lfloor>y\<rfloor>; r = y - of_int f
      in if r < 1 / 2 then f
         else if 1 / 2 < r then f + 1
         else if even f then f else f + 1)"

text \<open>
  The exponent of the binade of \<open>x\<close>, not below that of the subnormal values, and the
  significand of \<open>x\<close> rounded to 53 bits there.
\<close>

definition expo :: "rat \<Rightarrow> int" where
  "expo x = max (ilog2 x) (- 1022)"

definition signif :: "rat \<Rightarrow> int" where
  "signif x = round_half_even (x / 2 powi (expo x - 52))"

definition fl_pos :: "rat \<Rightarrow> number" where
  "fl_pos x =
     (if 1024 \<le> expo x \<or> (expo x = 1023 \<and> signif x = 2 ^ 53) then PosInf
      else Num (of_int (signif x) * 2 powi (expo x - 52)))"

fun neg :: "number \<Rightarrow> number" where
  "neg (Num x) = Num (- x)"
| "neg PosInf = NegInf"
| "neg NegInf = PosInf"
| "neg NaN = NaN"

text \<open>The binary64 value of an exact result.\<close>

definition fl :: "rat \<Rightarrow> number" where
  "fl x = (if x = 0 then Num 0 else if 0 < x then fl_pos x else neg (fl_pos (- x)))"

text \<open>The rationals that are binary64 values: rounding leaves them as they are.\<close>

definition is_double :: "rat \<Rightarrow> bool" where
  "is_double x \<longleftrightarrow> fl x = Num x"



subsection \<open>JavaScript values and operators used by the card\<close>

fun js_add :: "number \<Rightarrow> number \<Rightarrow> number" where
  "js_add (Num x) (Num y) = fl (x + y)"
| "js_add NaN b = NaN"
| "js_add a NaN = NaN"
| "js_add PosInf NegInf = NaN"
| "js_add NegInf PosInf = NaN"
| "js_add PosInf b = PosInf"
| "js_add a PosInf = PosInf"
| "js_add NegInf b = NegInf"
| "js_add a NegInf = NegInf"


text \<open>The sign of a number: \<open>1\<close>, \<open>0\<close> or \<open>- 1\<close>; \<^verbatim>\<open>NaN\<close> has none.\<close>

fun sign_of :: "number \<Rightarrow> int option" where
  "sign_of (Num x) = Some (if x = 0 then 0 else if 0 < x then 1 else - 1)"
| "sign_of PosInf = Some 1"
| "sign_of NegInf = Some (- 1)"
| "sign_of NaN = None"

fun js_mul :: "number \<Rightarrow> number \<Rightarrow> number" where
  "js_mul (Num x) (Num y) = fl (x * y)"
| "js_mul a b =
     (case (sign_of a, sign_of b) of
        (Some s, Some t) \<Rightarrow>
          if s * t = 0 then NaN else if 0 < s * t then PosInf else NegInf
      | _ \<Rightarrow> NaN)"

text \<open>
  \<^verbatim>\<open>a / d\<close> for a finite \<open>d\<close> that is not zero: the card divides by the literal 10
  and by an \<^verbatim>\<open>original_price\<close> that is truthy.
\<close>

fun js_div :: "number \<Rightarrow> rat \<Rightarrow> number" where
  "js_div (Num x) d = fl (x / d)"
| "js_div PosInf d = (if 0 < d then PosInf else NegInf)"
| "js_div NegInf d = (if 0 < d then NegInf else PosInf)"
| "js_div NaN d = NaN"

text \<open>
  \<^verbatim>\<open>a % m\<close> for a literal \<open>m\<close> (10 and 100 in the card): the remainder of the division
  truncated towards zero, so it has the sign of \<open>a\<close>; it is exact. The remainder of an
  infinity is \<^verbatim>\<open>NaN\<close>.
\<close>

definition js_trunc :: "rat \<Rightarrow> int" where
  "js_trunc x = (if x < 0 then \<lceil>x\<rceil> else \<lfloor>x\<rfloor>)"

fun js_rem :: "number \<Rightarrow> rat \<Rightarrow> number" where
  "js_rem (Num x) m = Num (x - m * of_int (js_trunc (x / m)))"
| "js_rem a m = NaN"

fun Math_floor :: "number \<Rightarrow> number" where
  "Math_floor (Num x) = Num (of_int \<lfloor>x\<rfloor>)"
| "Math_floor a = a"


text \<open>\<^verbatim>\<open>s.charCodeAt(0)\<close>: the first code unit, \<^verbatim>\<open>NaN\<close> on the empty string.\<close>

fun charCodeAt0 :: "string \<Rightarrow> number" where
  "charCodeAt0 [] = NaN"
| "charCodeAt0 (c # cs) = Num (of_nat (of_char c))"

text \<open>\<^verbatim>\<open>x || 1\<close> on a number: \<^verbatim>\<open>NaN\<close> and \<open>0\<close> are falsy.\<close>

fun or_one :: "number \<Rightarrow> number" where
  "or_one NaN = Num 1"
| "or_one (Num x) = (if x = 0 then Num 1 else Num x)"
| "or_one a = a"



subsection \<open>ProductCard: the simulated rating\<close>

definition seed :: "product \<Rightarrow> number" where
  "seed p = js_add (or_one (charCodeAt0 (id' p))) (or_one (Num (price p)))"

definition rating :: "product \<Rightarrow> number" where
  "rating p = js_add (Num 4) (js_div (js_rem (seed p) 10) 10)"

definition reviewCount :: "product \<Rightarrow> number" where
  "reviewCount p = js_add (Math_floor (js_rem (js_mul (seed p) (Num 3)) 100)) (Num 5)"

subsection \<open>ProductCard: the discount\<close>







subsection \<open>ProductCard: the wishlist toggle\<close>

text \<open>
  Modelled from the spec: an entry of the wishlist that the hook \<^verbatim>\<open>useWishlist\<close>
  supplies; the card reads its \<^verbatim>\<open>product_id\<close> only.
\<close>

record wishlist_item =
  product_id :: string

text \<open>\<^verbatim>\<open>wishlist?.some(item => item.product_id === product.id) ?? false\<close>\<close>

definition isWishlisted :: "wishlist_item list option \<Rightarrow> product \<Rightarrow> bool" where
  "isWishlisted wishlist p =
     (case wishlist of
        None \<Rightarrow> False
      | Some items \<Rightarrow> list_ex (\<lambda>item. product_id item = id' p) items)"

text \<open>
  The calls a handler makes on the mutation objects of the hooks, in order:
  \<^verbatim>\<open>removeMutation.mutate(id)\<close>, \<^verbatim>\<open>addMutation.mutate(id)\<close>.
\<close>

datatype mutation_call = RemoveMutation string | AddMutation string

definition handleToggleWishlist ::
  "'session option \<Rightarrow> wishlist_item list option \<Rightarrow> product \<Rightarrow> mutation_call list" where
  "handleToggleWishlist session wishlist p =
     (if session = None then []
      else if isWishlisted wishlist p then [RemoveMutation (id' p)]
      else [AddMutation (id' p)])"

subsection \<open>ProductCard: the add-to-cart button\<close>

datatype button_content = Spinner | CheckIconWith string | Text string

definition renderButtonContent :: "bool \<Rightarrow> bool \<Rightarrow> bool \<Rightarrow> button_content" where
  "renderButtonContent isPending added alreadyInCart =
     (if isPending then Spinner
      else if added then CheckIconWith ''Added''
      else if alreadyInCart then Text ''In Cart''
      else Text ''Add to Cart'')"

record add_button =
  disabled :: bool
  content :: button_content

text \<open>
  The button of the card, from \<^verbatim>\<open>addToCartMutation.isPending\<close>, the state
  \<^verbatim>\<open>justAdded\<close> and the lookup \<^verbatim>\<open>isItemInCart\<close> of the hook \<^verbatim>\<open>useCart\<close>.
\<close>

definition addToCartButton ::
  "bool \<Rightarrow> bool \<Rightarrow> (string \<Rightarrow> bool) \<Rightarrow> product \<Rightarrow> add_button" where
  "addToCartButton isPending added isItemInCart p =
     (let alreadyInCart = isItemInCart (id' p)
      in \<lparr>disabled = isPending \<or> alreadyInCart,
          content = renderButtonContent isPending added alreadyInCart\<rparr>)"

subsection \<open>ProductCard: the state \<^verbatim>\<open>justAdded\<close> and its timers\<close>

text \<open>
  The state of one card and the revert timers the host holds for it, each given by the
  time in milliseconds at which it is due. The code keeps no timer handle and calls no
  \<^verbatim>\<open>clearTimeout\<close>.
\<close>

record card_state =
  justAdded :: bool
  timers :: "nat list"

definition initial_card :: card_state where
  "initial_card = \<lparr>justAdded = False, timers = []\<rparr>"

text \<open>
  The callback \<^verbatim>\<open>onSuccess\<close> of \<^verbatim>\<open>handleAddToCart\<close>, run at time \<open>now\<close>:
  \<^verbatim>\<open>setJustAdded(true); setTimeout(() => setJustAdded(false), 2000)\<close>.
\<close>

definition onSuccess :: "nat \<Rightarrow> card_state \<Rightarrow> card_state" where
  "onSuccess now s = s\<lparr>justAdded := True, timers := timers s @ [now + 2000]\<rparr>"

text \<open>The callback of a timer, \<^verbatim>\<open>() => setJustAdded(false)\<close>; the host drops the timer.\<close>

definition onTimeout :: "nat \<Rightarrow> card_state \<Rightarrow> card_state" where
  "onTimeout due s = s\<lparr>justAdded := False, timers := remove1 due (timers s)\<rparr>"

text \<open>
  What happens to a card: an add-to-cart succeeds, or the host runs the callback of the
  pending timer with the given due time. The host runs a timer at a time of its choice
  that is not before the due time, and it fixes no order between a timer that is due and
  a success at the same time.
\<close>

datatype card_event = Success | Timeout nat

fun card_step :: "nat \<Rightarrow> card_event \<Rightarrow> card_state \<Rightarrow> card_state option" where
  "card_step t Success s = Some (onSuccess t s)"
| "card_step t (Timeout due) s =
     (if due \<in> set (timers s) \<and> due \<le> t then Some (onTimeout due s) else None)"

text \<open>
  A run of events with their times, from the time \<open>now\<close>: time does not go back, and
  the run is \<open>None\<close> when the host could not have done it.
\<close>

fun card_run :: "nat \<Rightarrow> (nat \<times> card_event) list \<Rightarrow> card_state \<Rightarrow> card_state option" where
  "card_run now [] s = Some s"
| "card_run now ((t, e) # es) s =
     (if now \<le> t
      then (case card_step t e s of None \<Rightarrow> None | Some s' \<Rightarrow> card_run t es s')
      else None)"

subsection \<open>Home: the category filter and the render paths\<close>

text \<open>
  Modelled from the spec: what \<^verbatim>\<open>useQuery\<close> of the data-fetching library returns, as
  far as \<^verbatim>\<open>Home\<close> reads it (\<^verbatim>\<open>data\<close>, \<^verbatim>\<open>isLoading\<close>, \<^verbatim>\<open>error\<close>).
\<close>

record js_error =
  message :: string

record 'a query_result =
  data :: "'a option"
  isLoading :: bool
  error :: "js_error option"

definition filteredProducts :: "product list option \<Rightarrow> string \<Rightarrow> product list" where
  "filteredProducts products activeCategory =
     (case products of
        None \<Rightarrow> []
      | Some ps \<Rightarrow>
          if activeCategory = ''All'' then ps
          else filter (\<lambda>product. map_option name (categories product) = Some activeCategory) ps)"

datatype grid_node =
    SkeletonGrid "nat list"
  | ErrorParagraph string
  | EmptyParagraph string
  | CardGrid "(product \<times> nat) list"

definition ProductGridSkeleton :: grid_node where
  "ProductGridSkeleton = SkeletonGrid [0..<8]"

definition renderProductGrid ::
  "bool \<Rightarrow> js_error option \<Rightarrow> js_error option \<Rightarrow> product list \<Rightarrow> grid_node" where
  "renderProductGrid isLoadingProducts productsError categoriesError fp =
     (if isLoadingProducts then ProductGridSkeleton
      else case productsError of
        Some e \<Rightarrow> ErrorParagraph (message e)
      | None \<Rightarrow>
         (case categoriesError of
            Some e \<Rightarrow> ErrorParagraph (message e)
          | None \<Rightarrow>
              if fp = [] then EmptyParagraph ''No products found in this category.''
              else CardGrid (zip fp [0..<length fp])))"

datatype nav_node =
    NavSkeleton "nat list"
  | NavButtons "(category \<times> bool) list"

definition CategoriesNav :: "category list \<Rightarrow> string \<Rightarrow> bool \<Rightarrow> nav_node" where
  "CategoriesNav cats activeCategory loading =
     (let allCategories = \<lparr>category_id = ''all-cat-id'', category_name = ''All''\<rparr> # cats
      in if loading then NavSkeleton [0..<6]
         else NavButtons (map (\<lambda>c. (c, activeCategory = category_name c)) allCategories))"

record home_view =
  nav :: nav_node
  heading :: string
  grid :: grid_node

definition Home ::
  "product list query_result \<Rightarrow> category list query_result \<Rightarrow> string \<Rightarrow> home_view" where
  "Home productsQuery categoriesQuery activeCategory =
     \<lparr>nav = CategoriesNav (case data categoriesQuery of None \<Rightarrow> [] | Some cs \<Rightarrow> cs)
              activeCategory (isLoading categoriesQuery),
      heading = (if activeCategory = ''All'' then ''New Arrivals'' else activeCategory),
      grid = renderProductGrid (isLoading productsQuery) (error productsQuery)
               (error categoriesQuery) (filteredProducts (data productsQuery) activeCategory)\<rparr>"

subsection \<open>Sample data\<close>

definition sample_product ::
  "string \<Rightarrow> rat \<Rightarrow> rat option \<Rightarrow> string option \<Rightarrow> product" where
  "sample_product i p op c =
     \<lparr>id' = i, product_name = ''Item'', price = p, original_price = op,
      image_url = None, categories = map_option (\<lambda>n. \<lparr>name = n\<rparr>) c\<rparr>"

section \<open>Properties\<close>

subsection \<open>Powers of two and the binary exponent\<close>

lemma pow2_pos: "0 < (2::rat) powi k"
  by (simp add: power_int_def)

lemma pow2_mono: "a \<le> b \<Longrightarrow> (2::rat) powi a \<le> 2 powi b"
  by (rule power_int_increasing) simp_all

lemma pow2_strict_mono: "a < b \<Longrightarrow> (2::rat) powi a < 2 powi b"
  by (rule power_int_strict_increasing) simp_all

lemma pow2_less_imp: "(2::rat) powi a < 2 powi b \<Longrightarrow> a < b"
  using pow2_mono [of b a] by (cases "a < b") auto

lemma pow2_add: "(2::rat) powi (a + b) = 2 powi a * 2 powi b"
  by (simp add: power_int_add)

lemma pow2_split: "a \<le> b \<Longrightarrow> (2::rat) powi b = of_int (2 ^ nat (b - a)) * 2 powi a"
proof -
  assume "a \<le> b"
  then have "(2::rat) powi b = 2 powi ((b - a) + a)" by simp
  also have "\<dots> = 2 powi (b - a) * 2 powi a" by (rule pow2_add)
  also from \<open>a \<le> b\<close> have "(2::rat) powi (b - a) = of_int (2 ^ nat (b - a))"
    by (simp add: power_int_def)
  finally show ?thesis .
qed

lemma pow2_53: "2 ^ 53 * (2::rat) powi (e - 52) = 2 powi (e + 1)"
proof -
  have "e + 1 = 53 + (e - 52)" by simp
  then have "(2::rat) powi (e + 1) = 2 powi (53 + (e - 52))" by (rule arg_cong)
  also have "\<dots> = 2 powi 53 * 2 powi (e - 52)" by (rule pow2_add)
  finally show ?thesis by simp
qed

lemma pow2_52: "2 ^ 52 * (2::rat) powi (e - 52) = 2 powi e"
proof -
  have "(2::rat) powi e = 2 powi (52 + (e - 52))" by simp
  also have "\<dots> = 2 powi 52 * 2 powi (e - 52)" by (rule pow2_add)
  finally show ?thesis by simp
qed

lemma ilog2_bounds:
  assumes "0 < x"
  shows "2 powi ilog2 x \<le> x \<and> x < 2 powi (ilog2 x + 1)"
proof -
  obtain a b where q: "quotient_of x = (a, b)" by (cases "quotient_of x")
  then have b: "0 < b" by (rule quotient_of_denom_pos)
  from q have x: "x = of_int a / of_int b" by (rule quotient_of_div)
  with assms b have a: "0 < a" by (simp add: zero_less_divide_iff)
  let ?la = "bitlen a" and ?lb = "bitlen b"
  from a have la1: "1 \<le> ?la" by (simp add: bitlen_alt_def)
  from b have lb1: "1 \<le> ?lb" by (simp add: bitlen_alt_def)
  from bitlen_bounds [OF a] have ba: "(2::int) ^ nat (?la - 1) \<le> a" "a < 2 ^ nat ?la" by simp_all
  from bitlen_bounds [OF b] have bb: "(2::int) ^ nat (?lb - 1) \<le> b" "b < 2 ^ nat ?lb" by simp_all
  have pa: "(2::rat) powi (?la - 1) \<le> of_int a"
  proof -
    from ba(1) have "(of_int ((2::int) ^ nat (?la - 1)) :: rat) \<le> of_int a" by (simp only: of_int_le_iff)
    with la1 show ?thesis by (simp add: power_int_def)
  qed
  have pa': "of_int a < (2::rat) powi ?la"
  proof -
    from ba(2) have "(of_int a :: rat) < of_int ((2::int) ^ nat ?la)" by (simp only: of_int_less_iff)
    with la1 show ?thesis by (simp add: power_int_def)
  qed
  have pb: "(2::rat) powi (?lb - 1) \<le> of_int b"
  proof -
    from bb(1) have "(of_int ((2::int) ^ nat (?lb - 1)) :: rat) \<le> of_int b" by (simp only: of_int_le_iff)
    with lb1 show ?thesis by (simp add: power_int_def)
  qed
  have pb': "of_int b < (2::rat) powi ?lb"
  proof -
    from bb(2) have "(of_int b :: rat) < of_int ((2::int) ^ nat ?lb)" by (simp only: of_int_less_iff)
    with lb1 show ?thesis by (simp add: power_int_def)
  qed
  let ?d = "?la - ?lb"
  have bpos: "(0::rat) < of_int b" using b by simp
  have lo: "(2::rat) powi (?d - 1) \<le> x"
  proof -
    have "(2::rat) powi (?d - 1) * of_int b \<le> 2 powi (?d - 1) * 2 powi ?lb"
      using pb' pow2_pos [of "?d - 1"] by (simp add: less_imp_le)
    also have "\<dots> = 2 powi (?la - 1)"
      by (simp add: pow2_add [symmetric])
    also have "\<dots> \<le> of_int a" by (rule pa)
    finally show ?thesis using bpos by (simp add: x pos_le_divide_eq)
  qed
  have hi: "x < (2::rat) powi (?d + 1)"
  proof -
    have "of_int a < (2::rat) powi ?la" by (rule pa')
    also have "\<dots> = 2 powi (?d + 1) * 2 powi (?lb - 1)"
      by (simp add: pow2_add [symmetric])
    also have "\<dots> \<le> 2 powi (?d + 1) * of_int b"
      using pb pow2_pos [of "?d + 1"] by simp
    finally show ?thesis using bpos by (simp add: x pos_divide_less_eq)
  qed
  show ?thesis
  proof (cases "2 powi ?d \<le> x")
    case True
    then have "ilog2 x = ?d" by (simp add: ilog2_def q)
    with True hi show ?thesis by simp
  next
    case False
    then have "ilog2 x = ?d - 1" by (simp add: ilog2_def q)
    with False lo show ?thesis by simp
  qed
qed

lemma ilog2_unique:
  assumes "2 powi e \<le> x" and "x < 2 powi (e + 1)"
  shows "ilog2 x = e"
proof -
  have pos: "0 < x" using pow2_pos [of e] assms(1) by (rule less_le_trans)
  note b = ilog2_bounds [OF pos]
  from b assms(2) have "(2::rat) powi ilog2 x < 2 powi (e + 1)" by simp
  then have 1: "ilog2 x < e + 1" by (rule pow2_less_imp)
  from b assms(1) have "(2::rat) powi e < 2 powi (ilog2 x + 1)" by simp
  then have 2: "e < ilog2 x + 1" by (rule pow2_less_imp)
  from 1 2 show ?thesis by simp
qed

lemma ilog2_mono:
  assumes "0 < x" and "x \<le> y"
  shows "ilog2 x \<le> ilog2 y"
proof -
  from assms have "0 < y" by simp
  from ilog2_bounds [OF assms(1)] ilog2_bounds [OF this] assms(2)
  have "(2::rat) powi ilog2 x < 2 powi (ilog2 y + 1)" by simp
  then have "ilog2 x < ilog2 y + 1" by (rule pow2_less_imp)
  then show ?thesis by simp
qed

lemma ilog2_ge: "2 powi e \<le> x \<Longrightarrow> e \<le> ilog2 x"
proof -
  assume a: "2 powi e \<le> x"
  have pos: "0 < x" using pow2_pos [of e] a by (rule less_le_trans)
  from ilog2_bounds [OF pos] a have "(2::rat) powi e < 2 powi (ilog2 x + 1)" by simp
  then have "e < ilog2 x + 1" by (rule pow2_less_imp)
  then show ?thesis by simp
qed

lemma ilog2_less: "0 < x \<Longrightarrow> x < 2 powi e \<Longrightarrow> ilog2 x < e"
proof -
  assume pos: "0 < x" and a: "x < 2 powi e"
  from ilog2_bounds [OF pos] a have "(2::rat) powi ilog2 x < 2 powi e" by simp
  then show ?thesis by (rule pow2_less_imp)
qed


subsection \<open>Rounding to an integer\<close>

lemma rhe_cases:
  "round_half_even y = \<lfloor>y\<rfloor> \<and> y - of_int \<lfloor>y\<rfloor> \<le> 1 / 2 \<or>
   round_half_even y = \<lfloor>y\<rfloor> + 1 \<and> 1 / 2 \<le> y - of_int \<lfloor>y\<rfloor>"
  by (auto simp: round_half_even_def Let_def)

lemma rhe_ge: "of_int n \<le> y \<Longrightarrow> n \<le> round_half_even y"
proof -
  assume "of_int n \<le> y"
  then have "n \<le> \<lfloor>y\<rfloor>" by (simp add: le_floor_iff)
  with rhe_cases [of y] show ?thesis by auto
qed

lemma rhe_le: "y \<le> of_int n \<Longrightarrow> round_half_even y \<le> n"
proof (cases "y = of_int n")
  case True
  then show ?thesis by (simp add: round_half_even_def)
next
  case False
  assume "y \<le> of_int n"
  with False have "y < of_int n" by simp
  then have "\<lfloor>y\<rfloor> < n" by (simp add: floor_less_iff)
  with rhe_cases [of y] show ?thesis by auto
qed

lemma rhe_of_int: "round_half_even (of_int n) = n"
  by (simp add: round_half_even_def)




subsection \<open>The shape of a rounded value\<close>

lemma expo_ge: "- 1022 \<le> expo x" and expo_ge_ilog2: "ilog2 x \<le> expo x"
  by (simp_all add: expo_def)

lemma signif_nonneg: "0 \<le> x \<Longrightarrow> 0 \<le> signif x"
proof -
  assume "0 \<le> x"
  then have "of_int 0 \<le> x / 2 powi (expo x - 52)" using pow2_pos [of "expo x - 52"] by simp
  then show ?thesis unfolding signif_def by (rule rhe_ge)
qed

lemma quotient_less:
  assumes "0 < x"
  shows "x / 2 powi (expo x - 52) < 2 ^ 53"
proof -
  have "x < 2 powi (ilog2 x + 1)" using ilog2_bounds [OF assms] by simp
  also have "\<dots> \<le> 2 powi (expo x + 1)" by (rule pow2_mono) (simp add: expo_def)
  also have "\<dots> = 2 ^ 53 * 2 powi (expo x - 52)" by (simp only: pow2_53)
  finally show ?thesis using pow2_pos [of "expo x - 52"] by (simp add: pos_divide_less_eq)
qed

lemma signif_le: "0 < x \<Longrightarrow> signif x \<le> 2 ^ 53"
proof -
  assume "0 < x"
  from quotient_less [OF this] have "x / 2 powi (expo x - 52) \<le> of_int (2 ^ 53)" by simp
  then show ?thesis unfolding signif_def by (rule rhe_le)
qed

lemma signif_normal:
  assumes "0 < x" and "expo x = ilog2 x"
  shows "2 ^ 52 \<le> signif x"
proof -
  have "2 ^ 52 * 2 powi (expo x - 52) = (2::rat) powi expo x" by (simp only: pow2_52)
  also have "\<dots> \<le> x" using ilog2_bounds [OF assms(1)] assms(2) by simp
  finally have "of_int (2 ^ 52) \<le> x / 2 powi (expo x - 52)"
    using pow2_pos [of "expo x - 52"] by (simp add: pos_le_divide_eq)
  then show ?thesis unfolding signif_def by (rule rhe_ge)
qed

lemma fl_pos_Num:
  "fl_pos x = Num y \<Longrightarrow>
   y = of_int (signif x) * 2 powi (expo x - 52) \<and> expo x \<le> 1023 \<and>
   (expo x = 1023 \<longrightarrow> signif x \<noteq> 2 ^ 53)"
  by (auto simp: fl_pos_def split: if_splits)

lemma fl_pos_cases:
  "fl_pos x = PosInf \<or> fl_pos x = Num (of_int (signif x) * 2 powi (expo x - 52))"
  by (simp add: fl_pos_def)

text \<open>A positive double is a multiple of every quantum up to its own.\<close>

lemma double_multiple:
  assumes "is_double d" and "0 < d" and "E \<le> expo d"
  shows "\<exists>n. d = of_int n * 2 powi (E - 52)"
proof -
  from assms(1,2) have "fl_pos d = Num d" by (simp add: is_double_def fl_def)
  then have d: "d = of_int (signif d) * 2 powi (expo d - 52)" by (simp add: fl_pos_Num)
  from assms(3) have "(2::rat) powi (expo d - 52) = of_int (2 ^ nat (expo d - E)) * 2 powi (E - 52)"
    using pow2_split [of "E - 52" "expo d - 52"] by simp
  with d have "d = of_int (signif d * 2 ^ nat (expo d - E)) * 2 powi (E - 52)" by simp
  then show ?thesis ..
qed

lemma expo_mono: "0 < x \<Longrightarrow> x \<le> y \<Longrightarrow> expo x \<le> expo y"
  using ilog2_mono [of x y] by (simp add: expo_def)

text \<open>Rounding does not cross a double: upper bound.\<close>

lemma fl_le_double:
  assumes "0 < x" and "x \<le> d" and "is_double d"
  shows "\<exists>y. fl x = Num y \<and> 0 \<le> y \<and> y \<le> d"
proof -
  let ?q = "2 powi (expo x - 52) :: rat"
  have q: "0 < ?q" by (rule pow2_pos)
  from assms have dpos: "0 < d" by simp
  from assms have ed: "expo x \<le> expo d" by (simp add: expo_mono)
  from double_multiple [OF assms(3) dpos ed] obtain n where n: "d = of_int n * ?q" ..
  from assms(2) n q have "x / ?q \<le> of_int n" by (simp add: pos_divide_le_eq)
  then have sn: "signif x \<le> n" unfolding signif_def by (rule rhe_le)
  from assms(3) dpos have fd: "fl_pos d = Num d" by (simp add: is_double_def fl_def)
  note shape = fl_pos_Num [OF fd]
  from shape ed have e: "expo x \<le> 1023" by simp
  have "\<not> (expo x = 1023 \<and> signif x = 2 ^ 53)"
  proof
    assume a: "expo x = 1023 \<and> signif x = 2 ^ 53"
    with ed shape have e': "expo d = 1023" by simp
    with shape a have "d = of_int (signif d) * ?q" by simp
    with n q have "signif d = n" by simp
    with sn a have "2 ^ 53 \<le> signif d" by simp
    with signif_le [OF dpos] shape e' show False by simp
  qed
  with e have "fl x = Num (of_int (signif x) * ?q)" using assms(1) by (simp add: fl_def fl_pos_def)
  moreover have "0 \<le> of_int (signif x) * ?q" using signif_nonneg [of x] assms(1) q by simp
  moreover have "of_int (signif x) * ?q \<le> d" using sn n q by simp
  ultimately show ?thesis by blast
qed

text \<open>Rounding does not cross a double: lower bound.\<close>

lemma fl_ge_double:
  assumes "0 < d" and "d \<le> x" and "is_double d"
  shows "fl x = PosInf \<or> (\<exists>y. fl x = Num y \<and> d \<le> y)"
proof -
  let ?q = "2 powi (expo x - 52) :: rat"
  have q: "0 < ?q" by (rule pow2_pos)
  from assms have xpos: "0 < x" by simp
  have "d \<le> of_int (signif x) * ?q"
  proof (cases "expo x \<le> expo d")
    case True
    from double_multiple [OF assms(3) assms(1) True] obtain n where n: "d = of_int n * ?q" ..
    from assms(2) n q have "of_int n \<le> x / ?q" by (simp add: pos_le_divide_eq)
    then have "n \<le> signif x" unfolding signif_def by (rule rhe_ge)
    with n q show ?thesis by simp
  next
    case False
    then have lt: "expo d < expo x" by simp
    with expo_ge [of d] have "expo x = ilog2 x" by (simp add: expo_def max_def split: if_splits)
    from signif_normal [OF xpos this] have s: "(2::rat) ^ 52 \<le> of_int (signif x)"
      by (metis of_int_le_iff of_int_numeral of_int_power)
    have "d < 2 powi (ilog2 d + 1)" using ilog2_bounds [OF assms(1)] by simp
    also have "\<dots> \<le> 2 powi expo x"
      using lt expo_ge_ilog2 [of d] by (intro pow2_mono) simp
    also have "\<dots> = 2 ^ 52 * ?q" by (simp only: pow2_52)
    also have "\<dots> \<le> of_int (signif x) * ?q" using s q by (simp only: mult_le_cancel_right_pos)
    finally show ?thesis by simp
  qed
  with fl_pos_cases [of x] xpos show ?thesis by (auto simp: fl_def)
qed

lemma fl_nonneg: "0 \<le> x \<Longrightarrow> fl x = PosInf \<or> (\<exists>y. fl x = Num y \<and> 0 \<le> y)"
proof (cases "x = 0")
  case True
  then show ?thesis by (simp add: fl_def)
next
  case False
  assume "0 \<le> x"
  with False have pos: "0 < x" by simp
  have "0 \<le> of_int (signif x) * (2::rat) powi (expo x - 52)"
    using signif_nonneg [of x] pos pow2_pos [of "expo x - 52"] by simp
  with fl_pos_cases [of x] pos show ?thesis by (auto simp: fl_def)
qed

subsection \<open>Particular doubles\<close>

lemma int_double:
  assumes "0 < k" and "k < 2 ^ 53"
  shows "fl (of_int k) = Num (of_int k)"
proof -
  let ?x = "of_int k :: rat"
  from assms(1) have pos: "0 < ?x" by simp
  have "2 powi 0 \<le> ?x" using assms(1) by simp
  then have e0: "0 \<le> ilog2 ?x" by (rule ilog2_ge)
  have "?x < of_int (2 ^ 53)" using assms(2) by (simp only: of_int_less_iff)
  then have "?x < 2 powi 53" by simp
  with pos have e53: "ilog2 ?x < 53" by (rule ilog2_less)
  from e0 have ex: "expo ?x = ilog2 ?x" by (simp add: expo_def)
  let ?n = "nat (52 - expo ?x)"
  have split: "(2::rat) powi (expo ?x - 52) * of_int (2 ^ ?n) = 1"
  proof -
    have "(2::rat) powi (52 - expo ?x) = of_int (2 ^ ?n)"
      using e53 ex by (simp add: power_int_def)
    moreover have "(2::rat) powi (expo ?x - 52) * 2 powi (52 - expo ?x) = 2 powi 0"
      by (simp only: pow2_add [symmetric]) simp
    ultimately show ?thesis by simp
  qed
  have q: "0 < (2::rat) powi (expo ?x - 52)" by (rule pow2_pos)
  have "?x / 2 powi (expo ?x - 52) = ?x * of_int (2 ^ ?n)"
    using split q by (simp add: field_simps)
  also have "\<dots> = of_int (k * 2 ^ ?n)" by simp
  finally have "signif ?x = k * 2 ^ ?n" unfolding signif_def by (simp only: rhe_of_int)
  then have "of_int (signif ?x) * 2 powi (expo ?x - 52) =
      ?x * (2 powi (expo ?x - 52) * of_int (2 ^ ?n))"
    by simp
  also have "\<dots> = ?x" by (simp only: split mult_1_right)
  finally have v: "of_int (signif ?x) * 2 powi (expo ?x - 52) = ?x" .
  from e53 ex have "\<not> (1024 \<le> expo ?x \<or> (expo ?x = 1023 \<and> signif ?x = 2 ^ 53))" by simp
  then have "fl_pos ?x = Num (of_int (signif ?x) * 2 powi (expo ?x - 52))"
    by (simp only: fl_pos_def if_False)
  with v pos show ?thesis by (simp add: fl_def)
qed

lemma pow2_double:
  assumes "- 1022 \<le> k" and "k \<le> 1023"
  shows "is_double (2 powi k)"
proof -
  let ?x = "2 powi k :: rat"
  have pos: "0 < ?x" by (rule pow2_pos)
  have "ilog2 ?x = k" by (rule ilog2_unique) (simp_all add: pow2_strict_mono)
  with assms(1) have ex: "expo ?x = k" by (simp add: expo_def)
  have q: "0 < (2::rat) powi (k - 52)" by (rule pow2_pos)
  have "?x / 2 powi (k - 52) = of_int (2 ^ 52)"
    using pow2_52 [of k] q by (simp add: field_simps)
  then have s: "signif ?x = 2 ^ 52" unfolding signif_def ex by (simp only: rhe_of_int)
  have v: "of_int (signif ?x) * 2 powi (expo ?x - 52) = ?x"
    using pow2_52 [of k] by (simp add: s ex)
  from s ex assms(2) have "\<not> (1024 \<le> expo ?x \<or> (expo ?x = 1023 \<and> signif ?x = 2 ^ 53))"
    by simp
  then have "fl_pos ?x = Num (of_int (signif ?x) * 2 powi (expo ?x - 52))"
    by (simp only: fl_pos_def if_False)
  with v pos show ?thesis by (simp add: is_double_def fl_def)
qed









subsection \<open>The remainder and the seed of the rating\<close>

lemma js_rem_bounds:
  assumes "0 \<le> x" and "0 < m"
  shows "\<exists>r. js_rem (Num x) m = Num r \<and> 0 \<le> r \<and> r < m"
proof -
  let ?q = "\<lfloor>x / m\<rfloor>"
  from assms have nn: "\<not> x / m < 0" by (simp add: not_less)
  from assms(2) have lo: "of_int ?q * m \<le> x" by (simp add: pos_le_divide_eq [symmetric])
  have "x / m < of_int ?q + 1" by linarith
  with assms(2) have hi: "x < (of_int ?q + 1) * m" by (simp only: pos_divide_less_eq)
  from nn have "js_rem (Num x) m = Num (x - m * of_int ?q)" by (simp add: js_trunc_def)
  moreover from lo have "0 \<le> x - m * of_int ?q" by (simp add: algebra_simps)
  moreover from hi have "x - m * of_int ?q < m" by (simp add: algebra_simps)
  ultimately show ?thesis by blast
qed

lemma or_one_code: "\<exists>c. or_one (charCodeAt0 s) = Num c \<and> 1 \<le> c \<and> c \<le> 255"
proof (cases s)
  case Nil
  then show ?thesis by simp
next
  case (Cons ch cs)
  have "(of_char ch :: nat) < 256" by simp
  then have "(of_char ch :: nat) \<le> 255" by linarith
  then have "(of_nat (of_char ch) :: rat) \<le> of_nat 255" by (simp only: of_nat_le_iff)
  then have u: "(of_nat (of_char ch) :: rat) \<le> 255" by simp
  have "of_char ch = (0::nat) \<or> 1 \<le> (of_char ch :: nat)" by linarith
  then show ?thesis using Cons u by auto
qed






lemma reviewCount_finite:
  assumes "seed p = Num s" and "0 \<le> s" and "js_mul (seed p) (Num 3) \<noteq> PosInf"
  shows "\<exists>n. reviewCount p = Num (of_int n) \<and> 5 \<le> n \<and> n \<le> 104"
proof -
  from assms(2) have "0 \<le> s * 3" by simp
  from fl_nonneg [OF this] assms(1,3) obtain t where t: "fl (s * 3) = Num t" "0 \<le> t"
    by auto
  from js_rem_bounds [OF t(2), of 100] obtain r where
    r: "js_rem (Num t) 100 = Num r" "0 \<le> r" "r < 100" by auto
  let ?f = "\<lfloor>r\<rfloor>"
  from r(2) have f0: "0 \<le> ?f" by simp
  from r(3) have f1: "?f < 100" by (simp add: floor_less_iff)
  from f0 have g0: "0 < ?f + 5" by linarith
  have "(100::int) + 5 < 2 ^ 53" by simp
  with f1 have g1: "?f + 5 < 2 ^ 53" by linarith
  from g0 g1 have "fl (of_int (?f + 5)) = Num (of_int (?f + 5))" by (rule int_double)
  then have "fl (of_int ?f + 5) = Num (of_int (?f + 5))" by simp
  with assms(1) t r have "reviewCount p = Num (of_int (?f + 5))"
    by (simp add: reviewCount_def)
  with f0 f1 show ?thesis by (intro exI [of _ "?f + 5"]) simp
qed

lemma seed_times_3_finite:
  assumes "0 \<le> price p" and "price p \<le> 2 powi K" and "8 \<le> K" and "K \<le> 1020"
  shows "js_mul (seed p) (Num 3) \<noteq> PosInf \<and> (\<exists>s. seed p = Num s \<and> 0 \<le> s)"
proof -
  from or_one_code [of "id' p"] obtain c where
    c: "or_one (charCodeAt0 (id' p)) = Num c" "1 \<le> c" "c \<le> 255" by blast
  define v where "v = (if price p = 0 then 1 else price p)"
  have v: "or_one (Num (price p)) = Num v" by (simp add: v_def)
  have "(2::rat) powi 0 \<le> 2 powi K" using assms(3) by (intro pow2_mono) simp
  then have one: "(1::rat) \<le> 2 powi K" by simp
  from assms(1,2) one have vpos: "0 < v" and vle: "v \<le> 2 powi K"
    by (auto simp: v_def)
  have "(2::rat) powi 8 \<le> 2 powi K" using assms(3) by (rule pow2_mono)
  moreover have "(2::rat) powi 8 = 256" by simp
  ultimately have cle: "c \<le> 2 powi K" using c(3) by linarith
  have dbl: "(2::rat) powi (K + 1) = 2 powi K + 2 powi K" by (simp add: pow2_add)
  from cle vle have le: "c + v \<le> 2 powi (K + 1)" by (simp only: dbl add_mono)
  from c(2) vpos have pos: "0 < c + v" by simp
  have d1: "is_double (2 powi (K + 1))" using assms(3,4) by (intro pow2_double) simp_all
  from fl_le_double [OF pos le d1] obtain s where
    s: "fl (c + v) = Num s" "0 \<le> s" "s \<le> 2 powi (K + 1)" by auto
  from c v s have seed: "seed p = Num s" by (simp add: seed_def)
  have "(2::rat) powi (K + 3) = 2 powi (K + 1) * 2 powi 2"
    using pow2_add [of "K + 1" 2] by (simp add: add.assoc)
  then have quad: "(2::rat) powi (K + 3) = 2 powi (K + 1) * 4" by simp
  have "s * 3 \<le> 2 powi (K + 1) * 4" using s(2,3) by simp
  then have le3: "s * 3 \<le> 2 powi (K + 3)" by (simp only: quad)
  have d3: "is_double (2 powi (K + 3))" using assms(3,4) by (intro pow2_double) simp_all
  have "fl (s * 3) \<noteq> PosInf"
  proof (cases "s = 0")
    case True
    then show ?thesis by (simp add: fl_def)
  next
    case False
    with s(2) have "0 < s * 3" by simp
    from fl_le_double [OF this le3 d3] show ?thesis by auto
  qed
  with seed s(2) show ?thesis by simp
qed

subsection \<open>The simulated rating\<close>

text \<open>
  C7. The rating and the review count are functions of the identifier and the price:
  two products with the same \<^verbatim>\<open>id\<close> and the same \<^verbatim>\<open>price\<close> get the same rating
  and the same review count, whatever their other fields are.
\<close>

theorem rating_deterministic:
  "id' p = id' q \<Longrightarrow> price p = price q \<Longrightarrow>
   rating p = rating q \<and> reviewCount p = reviewCount q"
  by (simp add: rating_def reviewCount_def seed_def)

theorem rating_deterministic_witness:
  "id' (sample_product ''p1'' 100 (Some 120) (Some ''Shoes'')) =
     id' (sample_product ''p1'' 100 None None) \<and>
   price (sample_product ''p1'' 100 (Some 120) (Some ''Shoes'')) =
     price (sample_product ''p1'' 100 None None) \<and>
   rating (sample_product ''p1'' 100 (Some 120) (Some ''Shoes'')) =
     rating (sample_product ''p1'' 100 None None) \<and>
   reviewCount (sample_product ''p1'' 100 (Some 120) (Some ''Shoes'')) =
     reviewCount (sample_product ''p1'' 100 None None)"
proof -
  have i: "id' (sample_product ''p1'' 100 (Some 120) (Some ''Shoes'')) =
      id' (sample_product ''p1'' 100 None None)"
    by (simp add: sample_product_def)
  have p: "price (sample_product ''p1'' 100 (Some 120) (Some ''Shoes'')) =
      price (sample_product ''p1'' 100 None None)"
    by (simp add: sample_product_def)
  from i p rating_deterministic [OF i p] show ?thesis by blast
qed




text \<open>
  C9. Of the identifier, only the first character enters the rating and the review
  count: two products with the same price whose identifiers start with the same
  character get the same values. On the empty identifier \<^verbatim>\<open>charCodeAt(0)\<close> is
  \<^verbatim>\<open>NaN\<close> and the seed takes 1 in its place.
\<close>

theorem rating_first_char_only:
  "rating (p\<lparr>id' := c # rest, price := x\<rparr>) = rating (q\<lparr>id' := c # rest', price := x\<rparr>) \<and>
   reviewCount (p\<lparr>id' := c # rest, price := x\<rparr>) =
     reviewCount (q\<lparr>id' := c # rest', price := x\<rparr>) \<and>
   seed (p\<lparr>id' := []\<rparr>) = js_add (Num 1) (or_one (Num (price p)))"
  by (simp add: rating_def reviewCount_def seed_def)

theorem rating_first_char_only_witness:
  "rating (sample_product ''abc'' 36 None None) = rating (sample_product ''axyz'' 36 None None) \<and>
   reviewCount (sample_product ''abc'' 36 None None) =
     reviewCount (sample_product ''axyz'' 36 None None) \<and>
   seed (sample_product [] 36 None None) = Num 37 \<and>
   rating (sample_product [] 36 None None) = Num (5291729562160333 / 2 ^ 50) \<and>
   reviewCount (sample_product [] 36 None None) = Num 16"
proof -
  have a: "sample_product ''abc'' 36 None None =
      (sample_product ''abc'' 36 None None)\<lparr>id' := CHR ''a'' # ''bc'', price := 36\<rparr>"
    by (simp add: sample_product_def)
  have b: "sample_product ''axyz'' 36 None None =
      (sample_product ''abc'' 36 None None)\<lparr>id' := CHR ''a'' # ''xyz'', price := 36\<rparr>"
    by (simp add: sample_product_def)
  have e: "sample_product [] 36 None None = (sample_product ''abc'' 36 None None)\<lparr>id' := []\<rparr>"
    by (simp add: sample_product_def)
  have pr: "price (sample_product ''abc'' 36 None None) = 36"
    by (simp add: sample_product_def)
  have f: "js_add (Num 1) (or_one (Num 36)) = Num 37" by code_simp
  note t = rating_first_char_only [where p = "sample_product ''abc'' 36 None None"
      and q = "sample_product ''abc'' 36 None None" and c = "CHR ''a''"
      and rest = "''bc''" and rest' = "''xyz''" and x = 36]
  have r: "rating (sample_product ''abc'' 36 None None) =
      rating (sample_product ''axyz'' 36 None None)"
    using t a b by simp
  have c: "reviewCount (sample_product ''abc'' 36 None None) =
      reviewCount (sample_product ''axyz'' 36 None None)"
    using t a b by simp
  have s: "seed (sample_product [] 36 None None) = Num 37"
    using t e pr f by simp
  have v: "rating (sample_product [] 36 None None) = Num (5291729562160333 / 2 ^ 50)"
    by code_simp
  have w: "reviewCount (sample_product [] 36 None None) = Num 16" by code_simp
  from r c s v w show ?thesis by blast
qed

lemma seed_nonneg:
  assumes "0 \<le> price p"
  shows "seed p = PosInf \<or> (\<exists>s. seed p = Num s \<and> 0 \<le> s)"
proof -
  from or_one_code [of "id' p"] obtain c where
    c: "or_one (charCodeAt0 (id' p)) = Num c" "1 \<le> c" by blast
  define v where "v = (if price p = 0 then 1 else price p)"
  have v: "or_one (Num (price p)) = Num v" by (simp add: v_def)
  from assms have "0 < v" by (simp add: v_def)
  with c(2) have "0 \<le> c + v" by simp
  from fl_nonneg [OF this] c(1) v show ?thesis by (simp add: seed_def)
qed

lemma fl_overflow:
  assumes "2 powi 1024 \<le> x"
  shows "fl x = PosInf"
proof -
  have "0 < x" using pow2_pos [of 1024] assms by (rule less_le_trans)
  moreover from assms have "1024 \<le> ilog2 x" by (rule ilog2_ge)
  then have "1024 \<le> expo x" by (simp add: expo_def)
  ultimately show ?thesis by (simp add: fl_def fl_pos_def)
qed

lemma reviewCount_overflow:
  assumes "id' p = ''a''" and "price p = 2 powi 1023"
  shows "reviewCount p = NaN"
proof -
  have pos: "0 < (2::rat) powi 1023" by (rule pow2_pos)
  let ?v = "2 powi 1023 :: rat"
  from assms pos have s: "seed p = fl (97 + ?v)"
    by (simp only: seed_def charCodeAt0.simps or_one.simps) simp
  have d: "is_double ?v" by (rule pow2_double) simp_all
  have le: "?v \<le> 97 + ?v" by simp
  have four: "?v * 3 = 2 powi 1024 + ?v"
  proof -
    have "(2::rat) powi (1023 + 1) = ?v * 2" by (simp only: pow2_add power_int_1_right)
    moreover have "(1023::int) + 1 = 1024" by simp
    ultimately have "(2::rat) powi 1024 = ?v * 2" by (simp only:)
    then show ?thesis by (simp only:)
  qed
  have "js_mul (seed p) (Num 3) = PosInf"
  proof -
    from fl_ge_double [OF pos le d] consider "fl (97 + ?v) = PosInf"
      | y where "fl (97 + ?v) = Num y" "?v \<le> y" by blast
    then show ?thesis
    proof cases
      case 1
      with s show ?thesis by simp
    next
      case 2
      from 2(2) have "?v * 3 \<le> y * 3" by simp
      with four pos have "2 powi 1024 \<le> y * 3" by linarith
      then have "fl (y * 3) = PosInf" by (rule fl_overflow)
      with s 2(1) show ?thesis by simp
    qed
  qed
  then show ?thesis by (simp add: reviewCount_def)
qed

text \<open>
  C10, as amended. For a product whose price is a nonnegative integer and for which
  \<^verbatim>\<open>seed * 3\<close> does not overflow to \<^verbatim>\<open>Infinity\<close>, the review count is an integer
  from 5 to 104; no price up to \<open>2 ^ 1020\<close> overflows.
\<close>

theorem reviewCount_range:
  "(price p \<in> \<int> \<and> 0 \<le> price p \<and> js_mul (seed p) (Num 3) \<noteq> PosInf \<longrightarrow>
      (\<exists>n. reviewCount p = Num (of_int n) \<and> 5 \<le> n \<and> n \<le> 104)) \<and>
   (0 \<le> price p \<and> price p \<le> 2 powi 1020 \<longrightarrow> js_mul (seed p) (Num 3) \<noteq> PosInf)"
proof (intro conjI impI)
  assume a: "price p \<in> \<int> \<and> 0 \<le> price p \<and> js_mul (seed p) (Num 3) \<noteq> PosInf"
  then have "0 \<le> price p" by simp
  from seed_nonneg [OF this] a obtain s where "seed p = Num s" "0 \<le> s" by auto
  with a show "\<exists>n. reviewCount p = Num (of_int n) \<and> 5 \<le> n \<and> n \<le> 104"
    by (intro reviewCount_finite) simp_all
next
  assume "0 \<le> price p \<and> price p \<le> 2 powi 1020"
  then show "js_mul (seed p) (Num 3) \<noteq> PosInf"
    using seed_times_3_finite [of p 1020] by simp
qed

theorem reviewCount_range_witness:
  "price (sample_product ''a'' 36 None None) \<in> \<int> \<and>
   0 \<le> price (sample_product ''a'' 36 None None) \<and>
   price (sample_product ''a'' 36 None None) \<le> 2 powi 1020 \<and>
   js_mul (seed (sample_product ''a'' 36 None None)) (Num 3) \<noteq> PosInf \<and>
   reviewCount (sample_product ''a'' 36 None None) = Num 104 \<and>
   reviewCount (sample_product ''a'' 3 None None) = Num 5"
proof -
  let ?p = "sample_product ''a'' 36 None None"
  have i: "price ?p \<in> \<int>" by (simp add: sample_product_def)
  have h: "0 \<le> price ?p" by (simp add: sample_product_def)
  have "(2::rat) powi 6 \<le> 2 powi 1020" by (rule pow2_mono) simp
  moreover have "(36::rat) \<le> 2 powi 6" by simp
  ultimately have "(36::rat) \<le> 2 powi 1020" by (rule order_trans [rotated])
  moreover have "price ?p = 36" by (simp add: sample_product_def)
  ultimately have b: "price ?p \<le> 2 powi 1020" by (simp only:)
  from reviewCount_range [of ?p] h b have o: "js_mul (seed ?p) (Num 3) \<noteq> PosInf" by blast
  have v: "reviewCount ?p = Num 104" by code_simp
  have w: "reviewCount (sample_product ''a'' 3 None None) = Num 5" by code_simp
  from reviewCount_range [of ?p] i h o obtain n where "reviewCount ?p = Num (of_int n)"
    "5 \<le> n" "n \<le> 104" by blast
  with i h b o v w show ?thesis by blast
qed

theorem reviewCount_overflow_counterexample:
  "price (sample_product ''a'' (2 powi 1023) None None) \<in> \<int> \<and>
   0 \<le> price (sample_product ''a'' (2 powi 1023) None None) \<and>
   is_double (price (sample_product ''a'' (2 powi 1023) None None)) \<and>
   reviewCount (sample_product ''a'' (2 powi 1023) None None) = NaN"
proof -
  let ?p = "sample_product ''a'' (2 powi 1023) None None"
  have pr: "price ?p = 2 powi 1023" by (simp only: sample_product_def product.simps)
  have eq: "(2::rat) powi 1023 = of_int (2 ^ 1023)"
    by (simp only: power_int_numeral of_int_power of_int_numeral)
  have "(2::rat) powi 1023 \<in> \<int>" unfolding eq by (rule Ints_of_int)
  then have i: "price ?p \<in> \<int>" by (simp only: pr)
  have h: "0 \<le> price ?p" using pow2_pos [of 1023] by (simp only: pr less_imp_le)
  have d: "is_double (price ?p)" unfolding pr by (rule pow2_double) simp_all
  have "id' ?p = ''a''" by (simp only: sample_product_def product.simps)
  from reviewCount_overflow [OF this pr] i h d show ?thesis by blast
qed

subsection \<open>The error of a rounding\<close>











subsection \<open>The discount\<close>













subsection \<open>The wishlist toggle\<close>

lemma isWishlisted_iff:
  "isWishlisted wl p \<longleftrightarrow> (\<exists>items. wl = Some items \<and> id' p \<in> product_id ` set items)"
proof (cases wl)
  case None
  then show ?thesis by (simp add: isWishlisted_def)
next
  case (Some items)
  have "list_ex (\<lambda>item. product_id item = id' p) items \<longleftrightarrow> id' p \<in> product_id ` set items"
    unfolding list_ex_iff by force
  with Some show ?thesis by (simp add: isWishlisted_def)
qed

text \<open>
  C6. Without a session the wishlist toggle issues no mutation. With a session it issues
  the remove-mutation for the product's identifier when the product is wishlisted (an
  entry of the wishlist carries its identifier), and the add-mutation for the product's
  identifier otherwise.
\<close>

theorem wishlist_toggle:
  "handleToggleWishlist (None :: 'a option) wl p = [] \<and>
   (isWishlisted wl p \<longrightarrow> handleToggleWishlist (Some (s :: 'a)) wl p = [RemoveMutation (id' p)]) \<and>
   (\<not> isWishlisted wl p \<longrightarrow> handleToggleWishlist (Some s) wl p = [AddMutation (id' p)]) \<and>
   (isWishlisted wl p \<longleftrightarrow> (\<exists>items. wl = Some items \<and> id' p \<in> product_id ` set items))"
  using isWishlisted_iff [of wl p] by (simp add: handleToggleWishlist_def)

theorem wishlist_toggle_witness:
  "isWishlisted (Some [\<lparr>product_id = ''p9''\<rparr>, \<lparr>product_id = ''p2''\<rparr>])
     (sample_product ''p2'' 80 (Some 100) None) \<and>
   handleToggleWishlist (Some ''user'') (Some [\<lparr>product_id = ''p9''\<rparr>, \<lparr>product_id = ''p2''\<rparr>])
     (sample_product ''p2'' 80 (Some 100) None) = [RemoveMutation ''p2''] \<and>
   \<not> isWishlisted (Some [\<lparr>product_id = ''p9''\<rparr>]) (sample_product ''p2'' 80 (Some 100) None) \<and>
   handleToggleWishlist (Some ''user'') (Some [\<lparr>product_id = ''p9''\<rparr>])
     (sample_product ''p2'' 80 (Some 100) None) = [AddMutation ''p2''] \<and>
   \<not> isWishlisted None (sample_product ''p2'' 80 (Some 100) None) \<and>
   handleToggleWishlist (Some ''user'') None (sample_product ''p2'' 80 (Some 100) None) =
     [AddMutation ''p2''] \<and>
   handleToggleWishlist (None :: string option) (Some [\<lparr>product_id = ''p2''\<rparr>])
     (sample_product ''p2'' 80 (Some 100) None) = []"
proof -
  let ?p = "sample_product ''p2'' 80 (Some 100) None"
  let ?in = "Some [\<lparr>product_id = ''p9''\<rparr>, \<lparr>product_id = ''p2''\<rparr>]"
  let ?out = "Some [\<lparr>product_id = ''p9''\<rparr>]"
  have i: "id' ?p = ''p2''" by (simp add: sample_product_def)
  have a: "isWishlisted ?in ?p" by (simp add: isWishlisted_def sample_product_def)
  have b: "\<not> isWishlisted ?out ?p" by (simp add: isWishlisted_def sample_product_def)
  have c: "\<not> isWishlisted None ?p" by (simp add: isWishlisted_def)
  from a b c i
    wishlist_toggle [of ?in ?p "''user''"]
    wishlist_toggle [of ?out ?p "''user''"]
    wishlist_toggle [of None ?p "''user''"]
    wishlist_toggle [of "Some [\<lparr>product_id = ''p2''\<rparr>]" ?p "''user''"]
  show ?thesis by simp
qed

subsection \<open>The add-to-cart button\<close>

text \<open>
  C4. The add-to-cart button is disabled exactly when the mutation is pending or the
  product is in the cart. Its content is the spinner while the mutation is pending;
  otherwise "Added" when the flag is set; otherwise "In Cart" when the product is in the
  cart; otherwise "Add to Cart".
\<close>

theorem add_button_states:
  "(disabled (addToCartButton pending flag inCart p) \<longleftrightarrow> pending \<or> inCart (id' p)) \<and>
   (pending \<longrightarrow> content (addToCartButton pending flag inCart p) = Spinner) \<and>
   (\<not> pending \<and> flag \<longrightarrow>
      content (addToCartButton pending flag inCart p) = CheckIconWith ''Added'') \<and>
   (\<not> pending \<and> \<not> flag \<and> inCart (id' p) \<longrightarrow>
      content (addToCartButton pending flag inCart p) = Text ''In Cart'') \<and>
   (\<not> pending \<and> \<not> flag \<and> \<not> inCart (id' p) \<longrightarrow>
      content (addToCartButton pending flag inCart p) = Text ''Add to Cart'')"
  by (simp add: addToCartButton_def renderButtonContent_def Let_def)

theorem add_button_states_witness:
  "content (addToCartButton True True (\<lambda>i. i = ''p2'') (sample_product ''p2'' 80 None None)) = Spinner \<and>
   disabled (addToCartButton True True (\<lambda>i. i = ''p2'') (sample_product ''p2'' 80 None None)) \<and>
   content (addToCartButton False True (\<lambda>i. i = ''p2'') (sample_product ''p2'' 80 None None)) =
     CheckIconWith ''Added'' \<and>
   disabled (addToCartButton False True (\<lambda>i. i = ''p2'') (sample_product ''p2'' 80 None None)) \<and>
   content (addToCartButton False False (\<lambda>i. i = ''p2'') (sample_product ''p2'' 80 None None)) =
     Text ''In Cart'' \<and>
   content (addToCartButton False False (\<lambda>i. False) (sample_product ''p2'' 80 None None)) =
     Text ''Add to Cart'' \<and>
   \<not> disabled (addToCartButton False False (\<lambda>i. False) (sample_product ''p2'' 80 None None)) \<and>
   content (addToCartButton False True (\<lambda>i. False) (sample_product ''p2'' 80 None None)) =
     CheckIconWith ''Added'' \<and>
   \<not> disabled (addToCartButton False True (\<lambda>i. False) (sample_product ''p2'' 80 None None))"
proof -
  let ?p = "sample_product ''p2'' 80 None None"
  have i: "id' ?p = ''p2''" by (simp add: sample_product_def)
  from i
    add_button_states [of True True "\<lambda>i. i = ''p2''" ?p]
    add_button_states [of False True "\<lambda>i. i = ''p2''" ?p]
    add_button_states [of False False "\<lambda>i. i = ''p2''" ?p]
    add_button_states [of False False "\<lambda>i. False" ?p]
    add_button_states [of False True "\<lambda>i. False" ?p]
  show ?thesis by simp
qed

subsection \<open>The flag \<^verbatim>\<open>justAdded\<close>\<close>

lemma onSuccess_state:
  "justAdded (onSuccess now s) \<and> timers (onSuccess now s) = timers s @ [now + 2000]"
  by (simp add: onSuccess_def)

lemma timeout_step:
  "card_step t (Timeout due) s = Some s' \<Longrightarrow>
   due \<le> t \<and> due \<in> set (timers s) \<and> \<not> justAdded s' \<and> timers s' = remove1 due (timers s)"
  by (auto simp: onTimeout_def split: if_splits)

text \<open>The flag stays set while no pending timer is due.\<close>

lemma flag_stays:
  "card_run now es s = Some s' \<Longrightarrow> justAdded s \<Longrightarrow> \<forall>d \<in> set (timers s). D \<le> d \<Longrightarrow>
   D \<le> now + 2000 \<Longrightarrow> \<forall>(t, e) \<in> set es. t < D \<Longrightarrow> justAdded s'"
proof (induction es arbitrary: now s)
  case Nil
  then show ?case by simp
next
  case (Cons te es)
  obtain t e where te: "te = (t, e)" by (cases te)
  from Cons.prems(1) te have now: "now \<le> t" by (simp split: if_splits)
  from Cons.prems(5) te have tD: "t < D" by simp
  from Cons.prems(5) have rest: "\<forall>(t, e) \<in> set es. t < D" by simp
  show ?case
  proof (cases e)
    case Success
    with Cons.prems(1) te now have run: "card_run t es (onSuccess t s) = Some s'" by simp
    have 1: "justAdded (onSuccess t s)" by (simp add: onSuccess_def)
    have 2: "\<forall>d \<in> set (timers (onSuccess t s)). D \<le> d"
      using Cons.prems(3,4) now by (auto simp: onSuccess_def)
    from Cons.prems(4) now have 3: "D \<le> t + 2000" by simp
    from Cons.IH [OF run 1 2 3 rest] show ?thesis .
  next
    case (Timeout due)
    have "card_step t (Timeout due) s = None"
    proof (cases "due \<in> set (timers s) \<and> due \<le> t")
      case True
      with Cons.prems(3) have "D \<le> t" by auto
      with tD show ?thesis by simp
    next
      case False
      then show ?thesis by auto
    qed
    with Cons.prems(1) te Timeout show ?thesis by (simp split: if_splits)
  qed
qed

lemma lone_timer:
  fixes s :: card_state
  assumes "timers s = []"
  shows "card_step t (Timeout (now + 2000)) (onSuccess now s) =
    (if now + 2000 \<le> t then Some \<lparr>justAdded = False, timers = []\<rparr> else None)"
  using assms by (simp add: onSuccess_def onTimeout_def)

lemma added_content:
  "content (addToCartButton pending (justAdded s) inCart p) = CheckIconWith ''Added'' \<longleftrightarrow>
   justAdded s \<and> \<not> pending"
  by (simp add: addToCartButton_def renderButtonContent_def Let_def)

text \<open>
  C3, as amended. Every successful add-to-cart sets the flag and adds one revert timer,
  due 2000 ms later, to the pending ones; no timer is cancelled, so several can be
  pending. A timer runs no earlier than it is due and clears the flag when it runs. The
  flag therefore stays set as long as no pending timer is due: after a success with no
  other revert timer pending it is set for at least 2000 ms, and it is clear, with no
  timer left, once that timer has run. The button shows "Added" exactly while the flag
  is set and no mutation is pending.
\<close>

theorem justAdded_window:
  fixes s :: card_state
  shows
  "justAdded (onSuccess now s) \<and>
   timers (onSuccess now s) = timers s @ [now + 2000] \<and>
   (card_step t (Timeout due) s = Some s' \<longrightarrow>
      due \<le> t \<and> due \<in> set (timers s) \<and> \<not> justAdded s' \<and>
      timers s' = remove1 due (timers s)) \<and>
   (card_run now es s = Some s' \<and> justAdded s \<and> (\<forall>d \<in> set (timers s). D \<le> d) \<and>
    D \<le> now + 2000 \<and> (\<forall>(u, e) \<in> set es. u < D) \<longrightarrow> justAdded s') \<and>
   (timers s = [] \<longrightarrow>
      card_step t (Timeout (now + 2000)) (onSuccess now s) =
        (if now + 2000 \<le> t then Some \<lparr>justAdded = False, timers = []\<rparr> else None)) \<and>
   (content (addToCartButton pending (justAdded s) inCart p) = CheckIconWith ''Added'' \<longleftrightarrow>
      justAdded s \<and> \<not> pending)"
  using onSuccess_state [of now s] timeout_step [of t due s s']
    flag_stays [of now es s s' D] lone_timer [of s t now] added_content [of pending s inCart p]
  by blast

theorem justAdded_window_witness:
  "timers initial_card = [] \<and>
   card_step 1999 (Timeout (0 + 2000)) (onSuccess 0 initial_card) = None \<and>
   card_step 2003 (Timeout (0 + 2000)) (onSuccess 0 initial_card) =
     Some \<lparr>justAdded = False, timers = []\<rparr> \<and>
   card_run 0 [(500, Success), (1999, Success)] (onSuccess 0 initial_card) =
     Some \<lparr>justAdded = True, timers = [2000, 2500, 3999]\<rparr> \<and>
   justAdded \<lparr>justAdded = True, timers = [2000, 2500, 3999]\<rparr>"
proof -
  let ?s = "onSuccess 0 initial_card"
  let ?es = "[(500::nat, Success), (1999, Success)]"
  let ?s' = "\<lparr>justAdded = True, timers = [2000, 2500, 3999]\<rparr>"
  have e: "timers initial_card = []" by (simp add: initial_card_def)
  note lone1 = justAdded_window [where now = 0 and s = initial_card and t = 1999,
      THEN conjunct2, THEN conjunct2, THEN conjunct2, THEN conjunct2, THEN conjunct1,
      THEN mp, OF e]
  note lone2 = justAdded_window [where now = 0 and s = initial_card and t = 2003,
      THEN conjunct2, THEN conjunct2, THEN conjunct2, THEN conjunct2, THEN conjunct1,
      THEN mp, OF e]
  have 1: "card_step 1999 (Timeout (0 + 2000)) ?s = None"
    by (simp only: lone1) simp
  have 2: "card_step 2003 (Timeout (0 + 2000)) ?s = Some \<lparr>justAdded = False, timers = []\<rparr>"
    by (simp only: lone2) simp
  have r: "card_run 0 ?es ?s = Some ?s'"
    by (simp add: onSuccess_def initial_card_def)
  have h2: "justAdded ?s" by (simp add: onSuccess_def)
  have h3: "\<forall>d \<in> set (timers ?s). 2000 \<le> d" by (simp add: onSuccess_def initial_card_def)
  have h4: "(2000::nat) \<le> 0 + 2000" by simp
  have h5: "\<forall>(u, e) \<in> set ?es. u < 2000" by simp
  note stays = justAdded_window [where now = 0 and s = ?s and D = 2000 and es = ?es
      and s' = ?s', THEN conjunct2, THEN conjunct2, THEN conjunct2, THEN conjunct1, THEN mp]
  have f: "justAdded ?s'" by (rule stays) (intro conjI r h2 h3 h4 h5)
  from e 1 2 r f show ?thesis by (intro conjI)
qed

theorem justAdded_overlap_counterexample:
  "card_run 0 [(0, Success), (1000, Success)] initial_card =
     Some \<lparr>justAdded = True, timers = [2000, 3000]\<rparr> \<and>
   card_run 0 [(0, Success), (1000, Success), (2000, Timeout 2000)] initial_card =
     Some \<lparr>justAdded = False, timers = [3000]\<rparr> \<and>
   (2000::nat) < 1000 + 2000"
  by (simp add: initial_card_def onSuccess_def onTimeout_def)

subsection \<open>The category filter\<close>

lemma category_name_matches:
  "map_option name (categories p) = Some sel \<longleftrightarrow> (\<exists>c. categories p = Some c \<and> name c = sel)"
  by (cases "categories p") auto

text \<open>
  C1. For a loaded product list, the selection "All" gives the list itself, unchanged
  and in its order; any other selection gives, in the order of the list, exactly the
  products that have a category whose name is equal to the selection as a string.
\<close>

theorem filteredProducts_exact:
  "filteredProducts (Some ps) ''All'' = ps \<and>
   (sel \<noteq> ''All'' \<longrightarrow>
      filteredProducts (Some ps) sel =
        filter (\<lambda>p. \<exists>c. categories p = Some c \<and> name c = sel) ps)"
  by (simp add: filteredProducts_def category_name_matches)

theorem filteredProducts_exact_witness:
  "''Shoes'' \<noteq> ''All'' \<and>
   filteredProducts
     (Some [sample_product ''p3'' 30 None (Some ''Bags''),
            sample_product ''p2'' 80 (Some 100) (Some ''Shoes''),
            sample_product ''p1'' 100 None (Some ''shoes''),
            sample_product ''p0'' 5 None None]) ''Shoes'' =
     [sample_product ''p2'' 80 (Some 100) (Some ''Shoes'')] \<and>
   filteredProducts
     (Some [sample_product ''p3'' 30 None (Some ''Bags''),
            sample_product ''p2'' 80 (Some 100) (Some ''Shoes''),
            sample_product ''p1'' 100 None (Some ''shoes''),
            sample_product ''p0'' 5 None None]) ''All'' =
     [sample_product ''p3'' 30 None (Some ''Bags''),
      sample_product ''p2'' 80 (Some 100) (Some ''Shoes''),
      sample_product ''p1'' 100 None (Some ''shoes''),
      sample_product ''p0'' 5 None None]"
proof -
  let ?ps = "[sample_product ''p3'' 30 None (Some ''Bags''),
            sample_product ''p2'' 80 (Some 100) (Some ''Shoes''),
            sample_product ''p1'' 100 None (Some ''shoes''),
            sample_product ''p0'' 5 None None]"
  have n: "''Shoes'' \<noteq> ''All''" by simp
  have f: "filter (\<lambda>p. \<exists>c. categories p = Some c \<and> name c = ''Shoes'') ?ps =
      [sample_product ''p2'' 80 (Some 100) (Some ''Shoes'')]"
    by (simp add: sample_product_def)
  from n f filteredProducts_exact [of ?ps "''Shoes''"] show ?thesis by simp
qed

subsection \<open>The render paths of the listing\<close>

lemma upt_8: "[0..<8] = [0, 1, 2, 3, 4, 5, 6, 7]"
  by (simp add: upt_rec)

lemma upt_6: "[0..<6] = [0, 1, 2, 3, 4, 5]"
  by (simp add: upt_rec)

text \<open>
  C5, as amended. The grid area takes exactly one of these paths. While the catalog is
  loading it shows 8 product skeletons. Otherwise, when the catalog load has failed it
  shows that error's message alone; otherwise, when the category load has failed it
  shows that error's message alone. Otherwise it shows the message for an empty
  category when the filtered list is empty, and the grid of the filtered products, each
  with its index, when it is not. The navigation shows 6 category skeletons while the
  categories are loading.
\<close>

theorem render_paths:
  "(isLoading pq \<longrightarrow> grid (Home pq cq a) = SkeletonGrid [0, 1, 2, 3, 4, 5, 6, 7]) \<and>
   (isLoading cq \<longrightarrow> nav (Home pq cq a) = NavSkeleton [0, 1, 2, 3, 4, 5]) \<and>
   (\<not> isLoading pq \<and> error pq = Some e \<longrightarrow>
      grid (Home pq cq a) = ErrorParagraph (message e)) \<and>
   (\<not> isLoading pq \<and> error pq = None \<and> error cq = Some e \<longrightarrow>
      grid (Home pq cq a) = ErrorParagraph (message e)) \<and>
   (\<not> isLoading pq \<and> error pq = None \<and> error cq = None \<and>
    filteredProducts (data pq) a = [] \<longrightarrow>
      grid (Home pq cq a) = EmptyParagraph ''No products found in this category.'') \<and>
   (\<not> isLoading pq \<and> error pq = None \<and> error cq = None \<and>
    filteredProducts (data pq) a \<noteq> [] \<longrightarrow>
      grid (Home pq cq a) =
        CardGrid (zip (filteredProducts (data pq) a)
                      [0..<length (filteredProducts (data pq) a)]))"
  by (simp add: Home_def renderProductGrid_def ProductGridSkeleton_def CategoriesNav_def
      Let_def upt_8 upt_6)


theorem render_paths_witness:
  "grid (Home \<lparr>data = None, isLoading = True, error = None\<rparr>
              \<lparr>data = None, isLoading = True, error = None\<rparr> ''All'') =
     SkeletonGrid [0, 1, 2, 3, 4, 5, 6, 7] \<and>
   nav (Home \<lparr>data = None, isLoading = True, error = None\<rparr>
             \<lparr>data = None, isLoading = True, error = None\<rparr> ''All'') =
     NavSkeleton [0, 1, 2, 3, 4, 5] \<and>
   grid (Home \<lparr>data = None, isLoading = False,
                error = Some \<lparr>message = ''Failed to load products. Please try again later.''\<rparr>\<rparr>
              \<lparr>data = Some [], isLoading = False, error = None\<rparr> ''All'') =
     ErrorParagraph ''Failed to load products. Please try again later.'' \<and>
   grid (Home \<lparr>data = Some [sample_product ''p2'' 80 (Some 100) (Some ''Shoes'')],
                isLoading = False, error = None\<rparr>
              \<lparr>data = None, isLoading = False,
                error = Some \<lparr>message = ''Failed to load categories.''\<rparr>\<rparr> ''All'') =
     ErrorParagraph ''Failed to load categories.'' \<and>
   grid (Home \<lparr>data = Some [sample_product ''p2'' 80 (Some 100) (Some ''Shoes'')],
                isLoading = False, error = None\<rparr>
              \<lparr>data = Some [], isLoading = False, error = None\<rparr> ''Bags'') =
     EmptyParagraph ''No products found in this category.'' \<and>
   grid (Home \<lparr>data = Some [sample_product ''p2'' 80 (Some 100) (Some ''Shoes'')],
                isLoading = False, error = None\<rparr>
              \<lparr>data = Some [], isLoading = False, error = None\<rparr> ''Shoes'') =
     CardGrid [(sample_product ''p2'' 80 (Some 100) (Some ''Shoes''), 0)]"
proof -
  let ?loading = "\<lparr>data = None :: product list option, isLoading = True, error = None\<rparr>"
  let ?cloading = "\<lparr>data = None :: category list option, isLoading = True, error = None\<rparr>"
  let ?failed = "\<lparr>data = None :: product list option, isLoading = False,
      error = Some \<lparr>message = ''Failed to load products. Please try again later.''\<rparr>\<rparr>"
  let ?cfailed = "\<lparr>data = None :: category list option, isLoading = False,
      error = Some \<lparr>message = ''Failed to load categories.''\<rparr>\<rparr>"
  let ?loaded = "\<lparr>data = Some [sample_product ''p2'' 80 (Some 100) (Some ''Shoes'')],
      isLoading = False, error = None\<rparr>"
  let ?cloaded = "\<lparr>data = Some ([] :: category list), isLoading = False, error = None\<rparr>"
  have e: "filteredProducts (data ?loaded) ''Bags'' = []"
    by (simp add: filteredProducts_def sample_product_def)
  have f: "filteredProducts (data ?loaded) ''Shoes'' =
      [sample_product ''p2'' 80 (Some 100) (Some ''Shoes'')]"
    by (simp add: filteredProducts_def sample_product_def)
  have 1: "grid (Home ?loading ?cloading ''All'') = SkeletonGrid [0, 1, 2, 3, 4, 5, 6, 7]"
    using render_paths [of ?loading ?cloading "''All''"] by simp
  have 2: "nav (Home ?loading ?cloading ''All'') = NavSkeleton [0, 1, 2, 3, 4, 5]"
    using render_paths [of ?loading ?cloading "''All''"] by simp
  have 3: "grid (Home ?failed ?cloaded ''All'') =
      ErrorParagraph ''Failed to load products. Please try again later.''"
    using render_paths [where pq = ?failed and cq = ?cloaded and a = "''All''"
        and e = "\<lparr>message = ''Failed to load products. Please try again later.''\<rparr>"]
    by simp
  have 4: "grid (Home ?loaded ?cfailed ''All'') = ErrorParagraph ''Failed to load categories.''"
    using render_paths [where pq = ?loaded and cq = ?cfailed and a = "''All''"
        and e = "\<lparr>message = ''Failed to load categories.''\<rparr>"]
    by simp
  have 5: "grid (Home ?loaded ?cloaded ''Bags'') =
      EmptyParagraph ''No products found in this category.''"
    using render_paths [of ?loaded ?cloaded "''Bags''"] e by simp
  have 6: "grid (Home ?loaded ?cloaded ''Shoes'') =
      CardGrid [(sample_product ''p2'' 80 (Some 100) (Some ''Shoes''), 0)]"
    using render_paths [of ?loaded ?cloaded "''Shoes''"] f by simp
  from 1 2 3 4 5 6 show ?thesis by blast
qed

theorem category_error_hides_grid_counterexample:
  "isLoading \<lparr>data = Some [sample_product ''p2'' 80 (Some 100) (Some ''Shoes'')],
               isLoading = False, error = None\<rparr> = False \<and>
   error \<lparr>data = Some [sample_product ''p2'' 80 (Some 100) (Some ''Shoes'')],
           isLoading = False, error = None\<rparr> = None \<and>
   filteredProducts (Some [sample_product ''p2'' 80 (Some 100) (Some ''Shoes'')]) ''All'' =
     [sample_product ''p2'' 80 (Some 100) (Some ''Shoes'')] \<and>
   grid (Home \<lparr>data = Some [sample_product ''p2'' 80 (Some 100) (Some ''Shoes'')],
                isLoading = False, error = None\<rparr>
              \<lparr>data = None, isLoading = False,
                error = Some \<lparr>message = ''Failed to load categories.''\<rparr>\<rparr> ''All'') =
     ErrorParagraph ''Failed to load categories.''"
  by (simp add: Home_def renderProductGrid_def filteredProducts_def)

end

